theory Spec2Isabelle
  imports Main "HOL-Library.Sublist"
begin

section \<open>Python strings\<close>

text \<open>
  A Python \<open>str\<close> is modelled as a HOL \<open>string\<close>: one \<open>char\<close> stands for one code
  point, so \<open>length\<close> is Python's \<open>len\<close>. The HOL character type holds the code
  points 0 to 255; the tables below are Python's tables cut to that range.
\<close>

text \<open>The characters \<open>str.strip()\<close> removes and \<open>str.isspace()\<close> accepts.\<close>

definition whitespace :: "char list" where
  "whitespace =
     [CHR 0x09, CHR 0x0A, CHR 0x0B, CHR 0x0C, CHR 0x0D,
      CHR 0x1C, CHR 0x1D, CHR 0x1E, CHR 0x1F, CHR 0x20, CHR 0x85, CHR 0xA0]"

definition isspace :: "char \<Rightarrow> bool" where
  "isspace c = (c \<in> set whitespace)"

text \<open>The line boundaries of \<open>str.splitlines()\<close>.\<close>

definition linebreaks :: "char list" where
  "linebreaks =
     [CHR 0x0A, CHR 0x0B, CHR 0x0C, CHR 0x0D, CHR 0x1C, CHR 0x1D, CHR 0x1E, CHR 0x85]"

definition islinebreak :: "char \<Rightarrow> bool" where
  "islinebreak c = (c \<in> set linebreaks)"

text \<open>\<open>s.strip()\<close>: whitespace is dropped at both ends, nothing inside.\<close>

definition lstrip :: "string \<Rightarrow> string" where
  "lstrip s = dropWhile isspace s"

definition rstrip :: "string \<Rightarrow> string" where
  "rstrip s = rev (dropWhile isspace (rev s))"

definition strip :: "string \<Rightarrow> string" where
  "strip s = rstrip (lstrip s)"

text \<open>
  \<open>s.splitlines()\<close>: the lines of \<open>s\<close> without their line ends; a carriage return
  followed by a line feed is one line end; a line end at the very end of the text opens
  no further line, and the empty text has no line.
\<close>

fun splitlines :: "string \<Rightarrow> string list" where
  "splitlines [] = []"
| "splitlines (c # cs) =
     (if c = CHR 0x0D \<and> cs \<noteq> [] \<and> hd cs = CHR 0x0A then [] # splitlines (tl cs)
      else if islinebreak c then [] # splitlines cs
      else (case splitlines cs of
              [] \<Rightarrow> [[c]]
            | l # ls \<Rightarrow> (c # l) # ls))"

text \<open>\<open>sep.join(xs)\<close>.\<close>

fun join :: "string \<Rightarrow> string list \<Rightarrow> string" where
  "join sep [] = []"
| "join sep [x] = x"
| "join sep (x # y # ys) = x @ sep @ join sep (y # ys)"

text \<open>\<open>s.replace(old, new)\<close> for a one-character \<open>old\<close>.\<close>

definition replace_char :: "char \<Rightarrow> string \<Rightarrow> string \<Rightarrow> string" where
  "replace_char old new s = concat (map (\<lambda>c. if c = old then new else [c]) s)"

text \<open>
  Lower case as the selector library folds names (the ASCII letters only), and as a
  regular expression that ignores case folds the characters of a value (the letters of
  the code points 0 to 255 that have a lower case there).
\<close>

definition ascii_lower :: "char \<Rightarrow> char" where
  "ascii_lower c =
     (case map_of (zip ''ABCDEFGHIJKLMNOPQRSTUVWXYZ'' ''abcdefghijklmnopqrstuvwxyz'') c of
        None \<Rightarrow> c
      | Some l \<Rightarrow> l)"

definition re_lower :: "char \<Rightarrow> char" where
  "re_lower c =
     (case map_of
        (zip [CHR 0xC0, CHR 0xC1, CHR 0xC2, CHR 0xC3, CHR 0xC4, CHR 0xC5, CHR 0xC6, CHR 0xC7,
              CHR 0xC8, CHR 0xC9, CHR 0xCA, CHR 0xCB, CHR 0xCC, CHR 0xCD, CHR 0xCE, CHR 0xCF,
              CHR 0xD0, CHR 0xD1, CHR 0xD2, CHR 0xD3, CHR 0xD4, CHR 0xD5, CHR 0xD6,
              CHR 0xD8, CHR 0xD9, CHR 0xDA, CHR 0xDB, CHR 0xDC, CHR 0xDD, CHR 0xDE]
             [CHR 0xE0, CHR 0xE1, CHR 0xE2, CHR 0xE3, CHR 0xE4, CHR 0xE5, CHR 0xE6, CHR 0xE7,
              CHR 0xE8, CHR 0xE9, CHR 0xEA, CHR 0xEB, CHR 0xEC, CHR 0xED, CHR 0xEE, CHR 0xEF,
              CHR 0xF0, CHR 0xF1, CHR 0xF2, CHR 0xF3, CHR 0xF4, CHR 0xF5, CHR 0xF6,
              CHR 0xF8, CHR 0xF9, CHR 0xFA, CHR 0xFB, CHR 0xFC, CHR 0xFD, CHR 0xFE]) c of
        None \<Rightarrow> ascii_lower c
      | Some l \<Rightarrow> l)"

section \<open>Exceptions\<close>

text \<open>
  What a call raises: \<open>Exception\<close> stands for the exceptions that derive from the class
  \<open>Exception\<close>, which an \<open>except Exception\<close> clause catches; \<open>BaseException\<close> stands
  for those that do not (a keyboard interrupt, an exit, a panic of native code), which
  such a clause lets through. A function that can raise returns a sum, the exception on
  the left.
\<close>

datatype exn = Exception string | BaseException string

section \<open>Step 6 of \<open>html_to_markdown\<close>: excessive blank lines\<close>

text \<open>
  The loop over \<open>lines\<close> carries the list \<open>cleaned\<close> and the counter \<open>blank_count\<close>;
  \<open>clean_step\<close> is one pass through its body.
\<close>

definition clean_step :: "string list \<times> nat \<Rightarrow> string \<Rightarrow> string list \<times> nat" where
  "clean_step st line =
     (case st of (cleaned, blank_count) \<Rightarrow>
        if strip line = [] then
          (let blank_count = blank_count + 1 in
             if blank_count \<le> 2 then (cleaned @ [[]], blank_count)
             else (cleaned, blank_count))
        else (cleaned @ [line], 0))"

definition clean_lines :: "string list \<Rightarrow> string list" where
  "clean_lines lines = fst (foldl clean_step ([], 0) lines)"

definition clean_blank_lines :: "string \<Rightarrow> string" where
  "clean_blank_lines markdown_body =
     strip (join [CHR 0x0A] (clean_lines (splitlines markdown_body)))"

section \<open>The parsed document\<close>

text \<open>
  \<open>BeautifulSoup(html, "html.parser")\<close> builds a tree of objects. An element carries
  its object identity (a number no other element of the tree has), its tag name, its
  attribute dictionary and its children; a text node carries its string, and so does a
  comment. The parser and the tree library are not part of the repository: the tree is
  their result, and the operations below are the library calls the pipeline makes on it.
\<close>

datatype node =
    Element nat string "(string \<times> string) list" "node list"
  | Text string
  | Comment string

fun ident :: "node \<Rightarrow> nat option" where
  "ident (Element i t a cs) = Some i"
| "ident (Text s) = None"
| "ident (Comment s) = None"

fun tag_name :: "node \<Rightarrow> string option" where
  "tag_name (Element i t a cs) = Some t"
| "tag_name (Text s) = None"
| "tag_name (Comment s) = None"

text \<open>\<open>tag.get(key)\<close>: the attribute's value, or \<open>None\<close>.\<close>

fun get_attr :: "node \<Rightarrow> string \<Rightarrow> string option" where
  "get_attr (Element i t a cs) key = map_of a key"
| "get_attr (Text s) key = None"
| "get_attr (Comment s) key = None"

text \<open>
  \<open>tag.descendants\<close>: every node below the tag, in document order (a node before its
  children, children from first to last); the tag itself is not among them.
\<close>

fun descendants :: "node \<Rightarrow> node list" where
  "descendants (Text s) = []"
| "descendants (Comment s) = []"
| "descendants (Element i t a cs) = concat (map (\<lambda>c. c # descendants c) cs)"

text \<open>
  The tree library keeps the value of \<open>class\<close> as the list of its
  whitespace-separated tokens.
\<close>

fun class_tokens :: "string \<Rightarrow> string \<Rightarrow> string list" where
  "class_tokens cur [] = (if cur = [] then [] else [cur])"
| "class_tokens cur (c # cs) =
     (if isspace c then (if cur = [] then class_tokens [] cs else cur # class_tokens [] cs)
      else class_tokens (cur @ [c]) cs)"

definition class_list :: "string \<Rightarrow> string list" where
  "class_list v = class_tokens [] v"

text \<open>
  \<open>tag.find(name, attrs)\<close> and \<open>tag.find_all(name)\<close>: a node matches when it is an
  element of that tag name and each requested attribute is present with the requested
  value; for \<open>class\<close> the requested value has to be one of the tokens. \<open>find\<close> returns
  the first match among the descendants, or \<open>None\<close>.
\<close>

definition attr_matches :: "node \<Rightarrow> string \<times> string \<Rightarrow> bool" where
  "attr_matches n kv =
     (case get_attr n (fst kv) of
        None \<Rightarrow> False
      | Some v \<Rightarrow> if fst kv = ''class'' then snd kv \<in> set (class_list v) else v = snd kv)"

definition tag_matches :: "string \<Rightarrow> (string \<times> string) list \<Rightarrow> node \<Rightarrow> bool" where
  "tag_matches nm attrs n = (tag_name n = Some nm \<and> list_all (attr_matches n) attrs)"

definition soup_find :: "string \<Rightarrow> (string \<times> string) list \<Rightarrow> node \<Rightarrow> node option" where
  "soup_find nm attrs soup = List.find (tag_matches nm attrs) (descendants soup)"

definition find_all :: "string \<Rightarrow> node \<Rightarrow> nat list" where
  "find_all nm soup = List.map_filter ident (filter (tag_matches nm []) (descendants soup))"

text \<open>
  \<open>tag.string\<close>: the string of a tag whose only child is a text node or a comment,
  looked up through only children; \<open>None\<close> for a tag with no child or with several.
\<close>

fun tag_string :: "node \<Rightarrow> string option" where
  "tag_string (Text s) = Some s"
| "tag_string (Comment s) = Some s"
| "tag_string (Element i t a cs) = (case cs of [c] \<Rightarrow> tag_string c | _ \<Rightarrow> None)"

text \<open>
  The selectors of \<open>STRIP_SELECTORS\<close>, parsed: a tag name, \<open>.class\<close>, \<open>#id\<close> and
  \<open>[attribute='value']\<close>. The selector library is not part of the repository either;
  what follows is how it matches these four forms on a tree of this parser.

  It looks an attribute up by its lower-cased name, taking the first of the dictionary
  that fits. For an attribute that the tree library keeps as a list of tokens (\<open>class\<close>,
  \<open>accesskey\<close> and \<open>dropzone\<close> on every tag, a few more on some tags) an attribute
  selector sees the tokens joined by single spaces. The value of an attribute selector
  is matched as the regular expression \<open>^value$\<close>, which also accepts the value followed
  by one line feed, and ignores case when the attribute is \<open>type\<close>.
\<close>

definition css_attr :: "(string \<times> string) list \<Rightarrow> string \<Rightarrow> (string \<times> string) option" where
  "css_attr a nm = List.find (\<lambda>kv. map ascii_lower (fst kv) = map ascii_lower nm) a"

definition CDATA_LIST_ATTRIBUTES :: "(string \<times> string list) list" where
  "CDATA_LIST_ATTRIBUTES =
     [(''a'', [''rel'', ''rev'']), (''link'', [''rel'', ''rev'']),
      (''td'', [''headers'']), (''th'', [''headers'']),
      (''form'', [''accept-charset'']), (''object'', [''archive'']),
      (''area'', [''rel'']), (''icon'', [''sizes'']),
      (''iframe'', [''sandbox'']), (''output'', [''for''])]"

definition is_list_attribute :: "string \<Rightarrow> string \<Rightarrow> bool" where
  "is_list_attribute nm key =
     (key \<in> set [''class'', ''accesskey'', ''dropzone''] \<or>
      (case map_of CDATA_LIST_ATTRIBUTES (map ascii_lower nm) of
         None \<Rightarrow> False
       | Some keys \<Rightarrow> key \<in> set keys))"

definition css_value :: "string \<Rightarrow> string \<times> string \<Rightarrow> string" where
  "css_value nm kv =
     (if is_list_attribute nm (fst kv) then join '' '' (class_list (snd kv)) else snd kv)"

definition value_matches :: "bool \<Rightarrow> string \<Rightarrow> string \<Rightarrow> bool" where
  "value_matches ignore_case pattern v =
     (let fold = (if ignore_case then map re_lower else (\<lambda>s. s))
      in fold v = fold pattern \<or> fold v = fold pattern @ [CHR 0x0A])"

datatype selector =
    TagSel string
  | ClassSel string
  | IdSel string
  | AttrSel string string

fun matches :: "selector \<Rightarrow> node \<Rightarrow> bool" where
  "matches sel (Text s) = False"
| "matches sel (Comment s) = False"
| "matches (TagSel t) (Element i nm a cs) =
     (t = ''*'' \<or> map ascii_lower nm = map ascii_lower t)"
| "matches (ClassSel c) (Element i nm a cs) =
     (case css_attr a ''class'' of None \<Rightarrow> False | Some kv \<Rightarrow> c \<in> set (class_list (snd kv)))"
| "matches (IdSel x) (Element i nm a cs) =
     (case css_attr a ''id'' of None \<Rightarrow> x = [] | Some kv \<Rightarrow> snd kv = x)"
| "matches (AttrSel k v) (Element i nm a cs) =
     (case css_attr a k of
        None \<Rightarrow> False
      | Some kv \<Rightarrow> value_matches (map ascii_lower k = ''type'') v (css_value nm kv))"

text \<open>
  A rule of the rule set is a selector the library can parse, or a text it cannot: then
  \<open>select\<close> raises. \<open>tag.select(selector)\<close> returns the matching descendants in
  document order; the list holds references to the elements, here their identities.
\<close>

datatype strip_rule = Rule selector | Unparsable string

fun select :: "strip_rule \<Rightarrow> node \<Rightarrow> exn + nat list" where
  "select (Unparsable s) soup = Inl (Exception ''SelectorSyntaxError'')"
| "select (Rule sel) soup =
     Inr (List.map_filter ident (filter (matches sel) (descendants soup)))"

text \<open>
  \<open>element.decompose()\<close>, seen from the tree that is being cleaned: the element with
  that identity leaves its parent's children together with everything below it. This is
  the library's behaviour, taken as it is: on an element that already left the tree,
  alone or inside an ancestor, the call finds no parent, changes nothing and raises
  nothing.
\<close>

fun decompose :: "nat \<Rightarrow> node \<Rightarrow> node" where
  "decompose e (Text s) = Text s"
| "decompose e (Comment s) = Comment s"
| "decompose e (Element i t a cs) =
     Element i t a (map (decompose e) (filter (\<lambda>c. ident c \<noteq> Some e) cs))"

section \<open>\<open>extract_metadata\<close>\<close>

text \<open>
  The dictionary \<open>meta\<close> keeps its keys in insertion order: an association list;
  \<open>meta[key] = value\<close> replaces the value of a key it has and appends a new key.
\<close>

definition dict_set :: "(string \<times> string) list \<Rightarrow> string \<Rightarrow> string \<Rightarrow> (string \<times> string) list" where
  "dict_set d key v =
     (if key \<in> fst ` set d then map (\<lambda>kv. if fst kv = key then (key, v) else kv) d
      else d @ [(key, v)])"

definition set_from_meta_tag :: "node \<Rightarrow> string \<Rightarrow> string \<Rightarrow> (string \<times> string) list \<Rightarrow> string \<Rightarrow> (string \<times> string) list" where
  "set_from_meta_tag soup attr ident_value meta key =
     (case soup_find ''meta'' [(attr, ident_value)] soup of
        None \<Rightarrow> meta
      | Some tag \<Rightarrow>
          (case get_attr tag ''content'' of
             None \<Rightarrow> meta
           | Some content \<Rightarrow> if content \<noteq> [] then dict_set meta key (strip content) else meta))"

definition extract_metadata :: "node \<Rightarrow> (string \<times> string) list" where
  "extract_metadata soup =
     (let meta = [];
          meta = (case soup_find ''title'' [] soup of
                    None \<Rightarrow> meta
                  | Some title_tag \<Rightarrow>
                      (case tag_string title_tag of
                         None \<Rightarrow> meta
                       | Some s \<Rightarrow> if s \<noteq> [] then dict_set meta ''title'' (strip s) else meta));
          meta = foldl (\<lambda>meta name. set_from_meta_tag soup ''name'' name meta name) meta
                   [''description'', ''author'', ''keywords''];
          meta = set_from_meta_tag soup ''property'' ''og:image'' meta ''image''
      in meta)"

section \<open>\<open>strip_non_content\<close>\<close>

definition DEFAULT_STRIP_SELECTORS :: "strip_rule list" where
  "DEFAULT_STRIP_SELECTORS =
     map Rule
       [TagSel ''nav'', TagSel ''header'', TagSel ''footer'',
        TagSel ''script'', TagSel ''style'', TagSel ''noscript'',
        TagSel ''iframe'', TagSel ''object'', TagSel ''embed'',
        ClassSel ''cookie-banner'', ClassSel ''cookie-consent'',
        IdSel ''cookie-banner'', IdSel ''cookie-consent'',
        AttrSel ''role'' ''navigation'', AttrSel ''role'' ''banner'',
        AttrSel ''role'' ''contentinfo'',
        ClassSel ''breadcrumb'', ClassSel ''pagination'',
        ClassSel ''sidebar'', TagSel ''aside'',
        TagSel ''form'']"

text \<open>The rules of the environment variable are appended to the defaults.\<close>

definition STRIP_SELECTORS :: "strip_rule list \<Rightarrow> strip_rule list" where
  "STRIP_SELECTORS extra_strip = DEFAULT_STRIP_SELECTORS @ extra_strip"

text \<open>
  The two nested loops: for each selector the match list is computed on the tree as it
  is then, and every element of the list is decomposed in turn. A selector that does not
  parse ends the function with the exception of \<open>select\<close>.
\<close>

definition decompose_all :: "nat list \<Rightarrow> node \<Rightarrow> node" where
  "decompose_all elements soup = foldl (\<lambda>soup element. decompose element soup) soup elements"

fun strip_non_content :: "strip_rule list \<Rightarrow> node \<Rightarrow> exn + node" where
  "strip_non_content [] soup = Inr soup"
| "strip_non_content (selector # selectors) soup =
     (case select selector soup of
        Inl e \<Rightarrow> Inl e
      | Inr elements \<Rightarrow> strip_non_content selectors (decompose_all elements soup))"

section \<open>\<open>html_to_markdown\<close>\<close>

text \<open>
  The parser is a parameter: it gives the children of the document object, which the
  library names \<open>[document]\<close>.
\<close>

definition BeautifulSoup :: "(string \<Rightarrow> node list) \<Rightarrow> string \<Rightarrow> node" where
  "BeautifulSoup html_parser html = Element 0 ''[document]'' [] (html_parser html)"

text \<open>
  Step 2, the chain of \<open>or\<close>: an element is always true, \<open>None\<close> is false, and
  \<open>soup.body\<close> is \<open>soup.find("body")\<close>.
\<close>

definition content_root :: "node \<Rightarrow> node" where
  "content_root soup =
     (case soup_find ''main'' [] soup of Some e \<Rightarrow> e | None \<Rightarrow>
      (case soup_find ''article'' [] soup of Some e \<Rightarrow> e | None \<Rightarrow>
       (case soup_find ''div'' [(''id'', ''content'')] soup of Some e \<Rightarrow> e | None \<Rightarrow>
        (case soup_find ''div'' [(''class'', ''content'')] soup of Some e \<Rightarrow> e | None \<Rightarrow>
         (case soup_find ''body'' [] soup of Some e \<Rightarrow> e | None \<Rightarrow> soup)))))"

text \<open>Step 4: every \<open>img\<close> below the content root is decomposed.\<close>

definition remove_images :: "node \<Rightarrow> node" where
  "remove_images root = decompose_all (find_all ''img'' root) root"

text \<open>Step 7: the front matter.\<close>

definition front_matter_line :: "string \<times> string \<Rightarrow> string" where
  "front_matter_line kv =
     (let safe_value = replace_char (CHR 0x22) [CHR 0x5C, CHR 0x22] (snd kv)
      in fst kv @ [CHR '':'', CHR '' '', CHR 0x22] @ safe_value @ [CHR 0x22])"

definition build_front_matter :: "(string \<times> string) list \<Rightarrow> string \<Rightarrow> string" where
  "build_front_matter metadata markdown_body =
     (if metadata \<noteq> [] then
        (let front_matter_lines = [''---''] @ map front_matter_line metadata @ [''---''];
             front_matter = join [CHR 0x0A] front_matter_lines
         in front_matter @ [CHR 0x0A, CHR 0x0A] @ markdown_body)
      else markdown_body)"

text \<open>
  The whole function. \<open>md\<close> stands for the serializer call
  \<open>md(str(content_root), heading_style="ATX", bullets="-")\<close>, \<open>extra_strip\<close> for the
  rules read from the environment. The parser and the serializer are taken to return;
  the exception of step 3 leaves the function.
\<close>

definition html_to_markdown ::
  "(string \<Rightarrow> node list) \<Rightarrow> (node \<Rightarrow> string) \<Rightarrow> strip_rule list \<Rightarrow> string \<Rightarrow> string
     \<Rightarrow> exn + string \<times> (string \<times> string) list" where
  "html_to_markdown html_parser md extra_strip html page_url =
     (let soup = BeautifulSoup html_parser html;
          metadata = extract_metadata soup;
          root = content_root soup
      in case strip_non_content (STRIP_SELECTORS extra_strip) root of
           Inl e \<Rightarrow> Inl e
         | Inr root \<Rightarrow>
             (let root = remove_images root;
                  markdown_body = md root;
                  markdown_body = clean_blank_lines markdown_body;
                  markdown_body = build_front_matter metadata markdown_body
              in Inr (markdown_body, metadata)))"

section \<open>\<open>count_tokens\<close>\<close>

text \<open>
  The tokenizer is not part of the repository. \<open>load\<close> is the outcome of
  \<open>tiktoken.get_encoding(TOKEN_MODEL)\<close>: an exception or an encoder; an encoder maps a
  text to an exception or to its token sequence. The global \<open>_encoder\<close> is the state:
  \<open>None\<close> until a load has succeeded.
\<close>

type_synonym encoder = "string \<Rightarrow> exn + nat list"

definition get_encoder :: "exn + encoder \<Rightarrow> encoder option \<Rightarrow> (exn + encoder) \<times> encoder option" where
  "get_encoder load encoder_state =
     (case encoder_state of
        Some enc \<Rightarrow> (Inr enc, encoder_state)
      | None \<Rightarrow>
          (case load of
             Inl e \<Rightarrow> (Inl e, None)
           | Inr enc \<Rightarrow> (Inr enc, Some enc)))"

text \<open>
  \<open>try: return len(get_encoder().encode(text))\<close> \<open>except Exception: return len(text) // 4\<close>.
  The clause catches what derives from \<open>Exception\<close>; anything else leaves the function.
\<close>

definition except_Exception :: "exn \<Rightarrow> string \<Rightarrow> exn + nat" where
  "except_Exception e text =
     (case e of
        Exception m \<Rightarrow> Inr (length text div 4)
      | BaseException m \<Rightarrow> Inl (BaseException m))"

definition count_tokens :: "exn + encoder \<Rightarrow> encoder option \<Rightarrow> string \<Rightarrow> (exn + nat) \<times> encoder option" where
  "count_tokens load encoder_state text =
     (case get_encoder load encoder_state of
        (Inl e, st) \<Rightarrow> (except_Exception e text, st)
      | (Inr enc, st) \<Rightarrow>
          (case enc text of
             Inl e \<Rightarrow> (except_Exception e text, st)
           | Inr tokens \<Rightarrow> (Inr (length tokens), st)))"

section \<open>Notions the properties are stated with\<close>

text \<open>What an element is without its children: identity, tag name and attributes.\<close>

fun label :: "node \<Rightarrow> (nat \<times> string \<times> (string \<times> string) list) option" where
  "label (Element i t a cs) = Some (i, t, a)"
| "label (Text s) = None"
| "label (Comment s) = None"




text \<open>The tree without every subtree, below its top node, whose top satisfies \<open>p\<close>.\<close>

fun prune :: "(node \<Rightarrow> bool) \<Rightarrow> node \<Rightarrow> node" where
  "prune p (Text s) = Text s"
| "prune p (Comment s) = Comment s"
| "prune p (Element i t a cs) = Element i t a (map (prune p) (filter (\<lambda>c. \<not> p c) cs))"

text \<open>
  The text content of a node: the strings of the text nodes below it, in document
  order; a comment is no text.
\<close>

fun get_text :: "node \<Rightarrow> string" where
  "get_text (Text s) = s"
| "get_text (Comment s) = []"
| "get_text (Element i t a cs) = concat (map get_text cs)"

definition is_tag :: "string \<Rightarrow> node \<Rightarrow> bool" where
  "is_tag t n = (tag_name n = Some t)"

definition has_id :: "string \<Rightarrow> node \<Rightarrow> bool" where
  "has_id x n = (get_attr n ''id'' = Some x)"

definition has_class :: "string \<Rightarrow> node \<Rightarrow> bool" where
  "has_class c n =
     (case get_attr n ''class'' of None \<Rightarrow> False | Some v \<Rightarrow> c \<in> set (class_list v))"

text \<open>
  The tiers of the content root as the specification words them, and as the calls of
  step 2 have them: there the third and the fourth tier ask for a \<open>div\<close>.
\<close>

definition specified_tiers :: "(node \<Rightarrow> bool) list" where
  "specified_tiers =
     [is_tag ''main'', is_tag ''article'', has_id ''content'', has_class ''content'',
      is_tag ''body'']"

definition root_tiers :: "(node \<Rightarrow> bool) list" where
  "root_tiers =
     [is_tag ''main'', is_tag ''article'',
      (\<lambda>n. is_tag ''div'' n \<and> has_id ''content'' n),
      (\<lambda>n. is_tag ''div'' n \<and> has_class ''content'' n),
      is_tag ''body'']"

text \<open>
  The first match of a list of tiers in a list of nodes: the first node of the first
  tier that has one.
\<close>

fun first_of_tiers :: "(node \<Rightarrow> bool) list \<Rightarrow> node list \<Rightarrow> node option" where
  "first_of_tiers [] ds = None"
| "first_of_tiers (p # ps) ds =
     (case List.find p ds of Some e \<Rightarrow> Some e | None \<Rightarrow> first_of_tiers ps ds)"

text \<open>The keys of the metadata in their fixed order.\<close>

definition METADATA_KEYS :: "string list" where
  "METADATA_KEYS = [''title'', ''description'', ''author'', ''keywords'', ''image'']"


text \<open>The tree that step 5 hands to the serializer, when step 3 raises nothing.\<close>

definition sanitized_root ::
  "(string \<Rightarrow> node list) \<Rightarrow> strip_rule list \<Rightarrow> string \<Rightarrow> exn + node" where
  "sanitized_root html_parser extra_strip html =
     (case strip_non_content (STRIP_SELECTORS extra_strip)
             (content_root (BeautifulSoup html_parser html)) of
        Inl e \<Rightarrow> Inl e
      | Inr root \<Rightarrow> Inr (remove_images root))"


text \<open>The value of a front-matter line, as step 7 escapes it.\<close>

definition safe_value :: "string \<Rightarrow> string" where
  "safe_value v = replace_char (CHR 0x22) [CHR 0x5C, CHR 0x22] v"

text \<open>
  The value \<open>extract_metadata\<close> stores for the title and for a \<open>meta\<close> tag, when it
  stores one.
\<close>

definition title_value :: "node \<Rightarrow> string option" where
  "title_value soup =
     (case soup_find ''title'' [] soup of
        None \<Rightarrow> None
      | Some title_tag \<Rightarrow>
          (case tag_string title_tag of
             None \<Rightarrow> None
           | Some s \<Rightarrow> if s \<noteq> [] then Some (strip s) else None))"

definition meta_value :: "node \<Rightarrow> string \<Rightarrow> string \<Rightarrow> string option" where
  "meta_value soup attr ident_value =
     (case soup_find ''meta'' [(attr, ident_value)] soup of
        None \<Rightarrow> None
      | Some tag \<Rightarrow>
          (case get_attr tag ''content'' of
             None \<Rightarrow> None
           | Some content \<Rightarrow> if content \<noteq> [] then Some (strip content) else None))"

text \<open>The dictionary entries a stored value makes: one, or none.\<close>

definition entry :: "string \<Rightarrow> string option \<Rightarrow> (string \<times> string) list" where
  "entry key v = (case v of None \<Rightarrow> [] | Some x \<Rightarrow> [(key, x)])"

text \<open>Every double quote of a text stands right after a backslash.\<close>

definition quotes_escaped :: "string \<Rightarrow> bool" where
  "quotes_escaped xs =
     (\<forall>i < length xs. xs ! i = CHR 0x22 \<longrightarrow> 0 < i \<and> xs ! (i - 1) = CHR 0x5C)"

text \<open>
  A document for trying the definitions on: a head with a title, a description, a
  \<open>keywords\<close> tag without \<open>content\<close> and a preview image; a body with a header, a
  \<open>div\<close> of identifier \<open>content\<close> that holds a heading, a navigation list, a
  paragraph with an image and a sidebar, and a footer.
\<close>

definition sample_html :: node where
  "sample_html =
     Element 1 ''html'' []
       [Element 2 ''head'' []
          [Element 3 ''title'' [] [Text '' No Main ''],
           Element 4 ''meta'' [(''name'', ''description''), (''content'', ''Eine Testseite '')] [],
           Element 5 ''meta'' [(''name'', ''keywords'')] [],
           Element 6 ''meta''
             [(''property'', ''og:image''), (''content'', ''https://example.com/image.jpg'')] []],
        Element 7 ''body'' []
          [Element 8 ''header'' [] [Text ''Site''],
           Element 9 ''div'' [(''id'', ''content'')]
             [Element 10 ''h1'' [] [Text ''Fallback Content''],
              Element 11 ''nav'' [(''class'', ''breadcrumb'')]
                [Element 12 ''ul'' [(''class'', ''pagination menu'')] [Text ''Home'']],
              Element 13 ''p'' []
                [Text ''Found via #content div.'',
                 Element 14 ''img'' [(''src'', ''photo.jpg''), (''alt'', ''Testbild'')] []],
              Element 15 ''aside'' [(''class'', ''sidebar'')] [Text ''Sidebar'']],
           Element 16 ''footer'' [] [Text ''2025'']]]"

definition sample_document :: node where
  "sample_document = Element 0 ''[document]'' [] [sample_html]"





section \<open>The blank-line loop\<close>

lemmas string_evals = strip_def lstrip_def rstrip_def isspace_def whitespace_def
  islinebreak_def linebreaks_def

lemma clean_step_acc:
  "clean_step (acc, n) l = (acc @ fst (clean_step ([], n) l), snd (clean_step ([], n) l))"
  by (simp add: clean_step_def Let_def)

lemma clean_fold_acc:
  "foldl clean_step (acc, n) ls =
     (acc @ fst (foldl clean_step ([], n) ls), snd (foldl clean_step ([], n) ls))"
proof (induction ls arbitrary: acc n)
  case Nil
  show ?case by simp
next
  case (Cons l ls)
  obtain x m where xm: "clean_step ([], n) l = (x, m)"
    by (cases "clean_step ([], n) l")
  then have "clean_step (acc, n) l = (acc @ x, m)"
    using clean_step_acc [of acc n l] by simp
  then show ?case
    using xm Cons.IH [of "acc @ x" m] Cons.IH [of x m] by simp
qed

lemma clean_fold_append:
  "fst (foldl clean_step ([], n) (xs @ ys)) =
     fst (foldl clean_step ([], n) xs) @
     fst (foldl clean_step ([], snd (foldl clean_step ([], n) xs)) ys)"
proof -
  obtain x m where xm: "foldl clean_step ([], n) xs = (x, m)"
    by (cases "foldl clean_step ([], n) xs")
  then show ?thesis
    using clean_fold_acc [of x m ys] by simp
qed

lemma clean_fold_blank_run:
  "\<forall>l \<in> set B. strip l = [] \<Longrightarrow>
     foldl clean_step ([], n) B = (replicate (min (length B) (2 - n)) [], n + length B)"
proof (induction B arbitrary: n)
  case Nil
  show ?case by simp
next
  case (Cons b B)
  have step: "clean_step ([], n) b = (if n + 1 \<le> 2 then [[]] else [], n + 1)"
    using Cons.prems by (simp add: clean_step_def Let_def)
  have rest: "foldl clean_step ([], n + 1) B =
      (replicate (min (length B) (2 - (n + 1))) [], n + 1 + length B)"
    using Cons.IH [of "n + 1"] Cons.prems by simp
  show ?case
  proof (cases "n + 1 \<le> 2")
    case True
    then have "foldl clean_step ([], n) (b # B) = foldl clean_step ([[]], n + 1) B"
      using step by simp
    also have "\<dots> = ([[]] @ replicate (min (length B) (2 - (n + 1))) [], n + 1 + length B)"
      using clean_fold_acc [of "[[]]" "n + 1" B] rest by simp
    also have "[[]] @ replicate (min (length B) (2 - (n + 1))) [] =
        replicate (min (length (b # B)) (2 - n)) ([]::string)"
      using True by (cases "2 - n") (auto simp: min_def)
    finally show ?thesis by simp
  next
    case False
    then have "foldl clean_step ([], n) (b # B) = foldl clean_step ([], n + 1) B"
      using step by simp
    then show ?thesis using rest False by simp
  qed
qed

lemma clean_fold_counter_reset:
  "A = [] \<or> strip (last A) \<noteq> [] \<Longrightarrow> snd (foldl clean_step ([], 0) A) = 0"
  by (cases A rule: rev_cases) (auto simp: clean_step_def split: prod.splits)

lemma clean_fold_any_counter:
  "C = [] \<or> strip (hd C) \<noteq> [] \<Longrightarrow>
     fst (foldl clean_step ([], n) C) = fst (foldl clean_step ([], 0) C)"
proof (cases C)
  case Nil
  then show ?thesis by simp
next
  case (Cons c cs)
  assume "C = [] \<or> strip (hd C) \<noteq> []"
  with Cons have "clean_step ([], n) c = clean_step ([], 0) c"
    by (simp add: clean_step_def)
  with Cons show ?thesis by simp
qed

lemma clean_lines_blank_run:
  assumes "\<forall>l \<in> set B. strip l = []"
    and "A = [] \<or> strip (last A) \<noteq> []"
    and "C = [] \<or> strip (hd C) \<noteq> []"
  shows "clean_lines (A @ B @ C) =
           clean_lines A @ replicate (min (length B) 2) [] @ clean_lines C"
proof -
  have "clean_lines (A @ B @ C) =
      clean_lines A @ fst (foldl clean_step ([], 0) (B @ C))"
    using clean_fold_append [of 0 A "B @ C"] clean_fold_counter_reset [OF assms(2)]
    by (simp add: clean_lines_def)
  also have "fst (foldl clean_step ([], 0) (B @ C)) =
      replicate (min (length B) 2) [] @ fst (foldl clean_step ([], length B) C)"
    using clean_fold_append [of 0 B C] clean_fold_blank_run [OF assms(1), of 0] by simp
  also have "fst (foldl clean_step ([], length B) C) = clean_lines C"
    using clean_fold_any_counter [OF assms(3)] by (simp add: clean_lines_def)
  finally show ?thesis .
qed

lemma clean_lines_nonblank:
  assumes "strip l \<noteq> []"
  shows "clean_lines (A @ l # C) = clean_lines A @ l # clean_lines C"
proof -
  have "foldl clean_step ([], n) (l # C) = foldl clean_step ([l], 0) C" for n
    using assms by (simp add: clean_step_def)
  then have "fst (foldl clean_step ([], n) (l # C)) = l # clean_lines C" for n
    using clean_fold_acc [of "[l]" 0 C] by (simp add: clean_lines_def)
  then show ?thesis
    using clean_fold_append [of 0 A "l # C"] by (simp add: clean_lines_def)
qed

lemma strip_decomp:
  "\<exists>p q. s = p @ strip s @ q \<and> list_all isspace p \<and> list_all isspace q"
proof -
  let ?p = "takeWhile isspace s"
  let ?m = "dropWhile isspace s"
  let ?q = "rev (takeWhile isspace (rev ?m))"
  have "?m = rev (dropWhile isspace (rev ?m)) @ ?q"
    by (metis rev_append rev_rev_ident takeWhile_dropWhile_id)
  then have "s = ?p @ strip s @ ?q"
    by (simp add: strip_def lstrip_def rstrip_def)
  moreover have "list_all isspace ?p"
    by (auto simp: list_all_iff dest: set_takeWhileD)
  moreover have "list_all isspace ?q"
    by (auto simp: list_all_iff dest: set_takeWhileD)
  ultimately show ?thesis by blast
qed

lemma strip_ends:
  assumes ne: "strip s \<noteq> []"
  shows "\<not> isspace (hd (strip s)) \<and> \<not> isspace (last (strip s))"
proof -
  let ?m = "dropWhile isspace s"
  let ?r = "dropWhile isspace (rev ?m)"
  from ne have r: "?r \<noteq> []" by (simp add: strip_def lstrip_def rstrip_def)
  then have "\<not> isspace (hd ?r)" by (rule hd_dropWhile)
  then have l: "\<not> isspace (last (strip s))"
    using r by (simp add: strip_def lstrip_def rstrip_def last_rev)
  have m: "?m \<noteq> []"
  proof
    assume "?m = []"
    then have "?r = []" by (simp only: rev.simps dropWhile.simps)
    with r show False by blast
  qed
  then have hm: "\<not> isspace (hd ?m)" by (rule hd_dropWhile)
  have "?m = rev ?r @ rev (takeWhile isspace (rev ?m))"
    by (metis rev_append rev_rev_ident takeWhile_dropWhile_id)
  then have "hd ?m = hd (rev ?r)" using r
    by (metis hd_append2 rev_is_Nil_conv)
  with hm l show ?thesis by (simp add: strip_def lstrip_def rstrip_def)
qed

text \<open>
  C2. Step 6 splits the serialized Markdown into lines and runs the loop over them. A
  maximal run \<open>B\<close> of blank lines (lines that are empty once stripped), standing between
  \<open>A\<close> and \<open>C\<close>, comes out as \<open>min (length B) 2\<close> empty lines: one or two stay as many,
  three or more become exactly two. A line that is not blank is emitted as it is, its
  indentation included, and what follows it is cleaned as from a counter of 0. The result
  is the joined lines with the whitespace at both ends trimmed: the joined text is the
  result between two stretches of whitespace, and a result that is not empty neither
  starts nor ends with whitespace.
\<close>

theorem blank_line_normalizer:
  "((\<forall>l \<in> set B. strip l = []) \<and> (A = [] \<or> strip (last A) \<noteq> []) \<and>
      (C = [] \<or> strip (hd C) \<noteq> []) \<longrightarrow>
        clean_lines (A @ B @ C) =
          clean_lines A @ replicate (min (length B) 2) [] @ clean_lines C) \<and>
   (strip l \<noteq> [] \<longrightarrow> clean_lines (A @ l # C) = clean_lines A @ l # clean_lines C) \<and>
   clean_blank_lines s = strip (join [CHR 0x0A] (clean_lines (splitlines s))) \<and>
   (\<exists>p q. join [CHR 0x0A] (clean_lines (splitlines s)) = p @ clean_blank_lines s @ q \<and>
      list_all isspace p \<and> list_all isspace q) \<and>
   (clean_blank_lines s \<noteq> [] \<longrightarrow>
      \<not> isspace (hd (clean_blank_lines s)) \<and> \<not> isspace (last (clean_blank_lines s)))"
proof (intro conjI impI)
  assume "(\<forall>l \<in> set B. strip l = []) \<and> (A = [] \<or> strip (last A) \<noteq> []) \<and>
      (C = [] \<or> strip (hd C) \<noteq> [])"
  then show "clean_lines (A @ B @ C) =
      clean_lines A @ replicate (min (length B) 2) [] @ clean_lines C"
    using clean_lines_blank_run [of B A C] by blast
next
  assume "strip l \<noteq> []"
  then show "clean_lines (A @ l # C) = clean_lines A @ l # clean_lines C"
    by (rule clean_lines_nonblank)
next
  show "clean_blank_lines s = strip (join [CHR 0x0A] (clean_lines (splitlines s)))"
    by (simp add: clean_blank_lines_def)
next
  show "\<exists>p q. join [CHR 0x0A] (clean_lines (splitlines s)) = p @ clean_blank_lines s @ q \<and>
      list_all isspace p \<and> list_all isspace q"
    unfolding clean_blank_lines_def by (rule strip_decomp)
next
  assume "clean_blank_lines s \<noteq> []"
  then show "\<not> isspace (hd (clean_blank_lines s))"
    unfolding clean_blank_lines_def using strip_ends by blast
next
  assume "clean_blank_lines s \<noteq> []"
  then show "\<not> isspace (last (clean_blank_lines s))"
    unfolding clean_blank_lines_def using strip_ends by blast
qed

theorem blank_line_normalizer_witness:
  "clean_lines ([''a''] @ [[], '' '', [], []] @ [''  b'']) = [''a'', [], [], ''  b''] \<and>
   clean_lines ([''a'', []] @ ''  b'' # [[], ''c'']) = [''a'', [], ''  b'', [], ''c''] \<and>
   clean_blank_lines [CHR '' '', CHR ''a'', CHR 0x0A, CHR 0x0A, CHR '' '', CHR 0x0A, CHR 0x0A,
      CHR '' '', CHR ''b'', CHR 0x0A] =
     [CHR ''a'', CHR 0x0A, CHR 0x0A, CHR 0x0A, CHR '' '', CHR ''b'']"
proof -
  have 1: "(\<forall>l \<in> set [[], '' '', [], []]. strip l = []) \<and>
      ([''a''] = [] \<or> strip (last [''a'']) \<noteq> []) \<and>
      ([''  b''] = [] \<or> strip (hd [''  b'']) \<noteq> [])"
    by (simp add: string_evals)
  have 2: "strip ''  b'' \<noteq> []"
    by (simp add: string_evals)
  have 3: "clean_lines [''a''] = [''a''] \<and> clean_lines [''  b''] = [''  b''] \<and>
      clean_lines [''a'', []] = [''a'', []] \<and> clean_lines [[], ''c''] = [[], ''c'']"
    by (simp add: clean_lines_def clean_step_def string_evals)
  show ?thesis
    using blank_line_normalizer [where A = "[''a'']" and B = "[[], '' '', [], []]"
        and C = "[''  b'']" and l = "''  b''"
        and s = "[CHR '' '', CHR ''a'', CHR 0x0A, CHR 0x0A, CHR '' '', CHR 0x0A, CHR 0x0A,
      CHR '' '', CHR ''b'', CHR 0x0A]"]
      blank_line_normalizer [where A = "[''a'', []]" and l = "''  b''" and C = "[[], ''c'']"
        and B = "[]" and s = "[]"]
      1 2 3
    by (simp add: clean_lines_def clean_step_def string_evals)
qed

section \<open>The token estimate\<close>

lemma count_tokens_fallback:
  "fst (get_encoder load st) = Inl (Exception m) \<or>
     (fst (get_encoder load st) = Inr enc \<and> enc text = Inl (Exception m)) \<Longrightarrow>
   fst (count_tokens load st text) = Inr (length text div 4)"
  by (auto simp: count_tokens_def except_Exception_def split: prod.splits sum.splits)


lemma count_tokens_tokenizer:
  "fst (get_encoder load st) = Inr enc \<Longrightarrow> enc text = Inr ts \<Longrightarrow>
   fst (count_tokens load st text) = Inr (length ts)"
  by (auto simp: count_tokens_def split: prod.splits sum.splits)





text \<open>
  C7 as stated fails on the fallback path: with no encoder to be had, \<open>"Hi"\<close> and
  \<open>"Hi!"\<close> both count 0 tokens.
\<close>

theorem count_tokens_not_strictly_monotonic:
  "fst (count_tokens (Inl (Exception ''no encoding'')) None ''Hi'') = Inr 0 \<and>
   fst (count_tokens (Inl (Exception ''no encoding'')) None (''Hi'' @ ''!'')) = Inr 0 \<and>
   fst (count_tokens (Inl (Exception ''no encoding'')) None (''Hi'' @ ''!'')) =
     fst (count_tokens (Inl (Exception ''no encoding'')) None ''Hi'')"
  by (simp add: count_tokens_def get_encoder_def except_Exception_def)

text \<open>
  C7, amended. On the fallback path, the one an exception deriving from \<open>Exception\<close>
  leads to, the estimate never falls when content is appended, and it rises when at least
  four characters are appended. On the tokenizer path the estimate is the length of the
  encoder's token sequence, for the short text and for the long one.
\<close>

theorem count_tokens_monotonic:
  "(fst (get_encoder load st) = Inl (Exception m) \<or>
      (fst (get_encoder load st) = Inr enc \<and> enc s = Inl (Exception m) \<and>
         enc (s @ t) = Inl (Exception m')) \<longrightarrow>
        (\<exists>a b. fst (count_tokens load st s) = Inr a \<and>
           fst (count_tokens load st (s @ t)) = Inr b \<and> a \<le> b \<and> (4 \<le> length t \<longrightarrow> a < b))) \<and>
   (fst (get_encoder load st) = Inr enc \<and> enc s = Inr ts \<and> enc (s @ t) = Inr ts' \<longrightarrow>
        fst (count_tokens load st s) = Inr (length ts) \<and>
        fst (count_tokens load st (s @ t)) = Inr (length ts'))"
proof (intro conjI impI)
  assume a: "fst (get_encoder load st) = Inl (Exception m) \<or>
      (fst (get_encoder load st) = Inr enc \<and> enc s = Inl (Exception m) \<and>
         enc (s @ t) = Inl (Exception m'))"
  have "fst (count_tokens load st s) = Inr (length s div 4)"
    using a count_tokens_fallback [of load st m enc s] by blast
  moreover have "fst (count_tokens load st (s @ t)) = Inr (length (s @ t) div 4)"
    using a count_tokens_fallback [of load st m enc "s @ t"]
      count_tokens_fallback [of load st m' enc "s @ t"] by blast
  moreover have "length s div 4 \<le> length (s @ t) div 4"
    by (simp add: div_le_mono)
  moreover have "4 \<le> length t \<longrightarrow> length s div 4 < length (s @ t) div 4"
  proof
    assume "4 \<le> length t"
    then have "(length s + 4) div 4 \<le> length (s @ t) div 4"
      by (intro div_le_mono) simp
    then show "length s div 4 < length (s @ t) div 4" by simp
  qed
  ultimately show "\<exists>a b. fst (count_tokens load st s) = Inr a \<and>
           fst (count_tokens load st (s @ t)) = Inr b \<and> a \<le> b \<and> (4 \<le> length t \<longrightarrow> a < b)"
    by blast
next
  assume a: "fst (get_encoder load st) = Inr enc \<and> enc s = Inr ts \<and> enc (s @ t) = Inr ts'"
  then show "fst (count_tokens load st s) = Inr (length ts)"
    using count_tokens_tokenizer by blast
  from a show "fst (count_tokens load st (s @ t)) = Inr (length ts')"
    using count_tokens_tokenizer by blast
qed

theorem count_tokens_monotonic_witness:
  "(\<exists>a b. fst (count_tokens (Inl (Exception ''no encoding'')) None ''Hi'') = Inr a \<and>
      fst (count_tokens (Inl (Exception ''no encoding'')) None (''Hi'' @ ''There'')) = Inr b \<and>
      a \<le> b \<and> a < b) \<and>
   fst (count_tokens (Inr (\<lambda>t. Inr (map of_char t))) None ''Hi'') = Inr 2 \<and>
   fst (count_tokens (Inr (\<lambda>t. Inr (map of_char t))) None (''Hi'' @ ''!'')) = Inr 3"
proof -
  let ?e = "Exception ''no encoding''"
  let ?chars = "\<lambda>t. Inr (map of_char t) :: exn + nat list"
  have 1: "fst (get_encoder (Inl ?e) None) = Inl ?e"
    by (simp add: get_encoder_def)
  have 2: "fst (get_encoder (Inr ?chars) None) = Inr ?chars \<and>
      ?chars ''Hi'' = Inr [72, 105] \<and> ?chars (''Hi'' @ ''!'') = Inr [72, 105, 33]"
    by (simp add: get_encoder_def)
  show ?thesis
    using count_tokens_monotonic [of "Inl ?e" None "''no encoding''" undefined "''Hi''" "''There''" undefined undefined undefined]
      count_tokens_monotonic [of "Inr ?chars" None undefined ?chars "''Hi''" "''!''" undefined "[72, 105]" "[72, 105, 33]"]
      1 2
    by simp
qed

text \<open>
  C10. \<open>page_url\<close> is not read: two calls that differ only in it return the same
  result.
\<close>

theorem page_url_ignored:
  "html_to_markdown html_parser md extra_strip html u1 =
   html_to_markdown html_parser md extra_strip html u2"
  by (simp add: html_to_markdown_def)

theorem page_url_ignored_witness:
  "html_to_markdown (\<lambda>h. [Element 1 ''p'' [] [Text h]]) get_text [] ''Hello'' [] =
   html_to_markdown (\<lambda>h. [Element 1 ''p'' [] [Text h]]) get_text [] ''Hello''
     ''http://localhost:8080/page''"
  using page_url_ignored [of "\<lambda>h. [Element 1 ''p'' [] [Text h]]" get_text "[]" "''Hello''" "[]"
      "''http://localhost:8080/page''"]
  by simp

section \<open>The metadata\<close>

lemma set_from_meta_tag_append:
  "key \<notin> fst ` set meta \<Longrightarrow>
   set_from_meta_tag soup attr idv meta key = meta @ entry key (meta_value soup attr idv)"
  by (simp add: set_from_meta_tag_def meta_value_def entry_def dict_set_def
      split: option.splits)

lemma fst_entry: "fst ` set (entry key v) \<subseteq> {key}"
  by (auto simp: entry_def split: option.splits)

lemma extract_metadata_entries:
  "extract_metadata soup =
     entry ''title'' (title_value soup) @
     entry ''description'' (meta_value soup ''name'' ''description'') @
     entry ''author'' (meta_value soup ''name'' ''author'') @
     entry ''keywords'' (meta_value soup ''name'' ''keywords'') @
     entry ''image'' (meta_value soup ''property'' ''og:image'')"
proof -
  let ?e1 = "entry ''title'' (title_value soup)"
  let ?e2 = "entry ''description'' (meta_value soup ''name'' ''description'')"
  let ?e3 = "entry ''author'' (meta_value soup ''name'' ''author'')"
  let ?e4 = "entry ''keywords'' (meta_value soup ''name'' ''keywords'')"
  have s1: "(case soup_find ''title'' [] soup of
                    None \<Rightarrow> []
                  | Some title_tag \<Rightarrow>
                      (case tag_string title_tag of
                         None \<Rightarrow> []
                       | Some s \<Rightarrow> if s \<noteq> [] then dict_set [] ''title'' (strip s) else [])) = ?e1"
    by (simp add: title_value_def entry_def dict_set_def split: option.splits)
  have k1: "''description'' \<notin> fst ` set ?e1"
    using fst_entry [of "''title''" "title_value soup"] by auto
  have k2: "''author'' \<notin> fst ` set (?e1 @ ?e2)"
    using fst_entry [of "''title''" "title_value soup"]
      fst_entry [of "''description''" "meta_value soup ''name'' ''description''"] by auto
  have k3: "''keywords'' \<notin> fst ` set ((?e1 @ ?e2) @ ?e3)"
    using fst_entry [of "''title''" "title_value soup"]
      fst_entry [of "''description''" "meta_value soup ''name'' ''description''"]
      fst_entry [of "''author''" "meta_value soup ''name'' ''author''"] by auto
  have k4: "''image'' \<notin> fst ` set (((?e1 @ ?e2) @ ?e3) @ ?e4)"
    using fst_entry [of "''title''" "title_value soup"]
      fst_entry [of "''description''" "meta_value soup ''name'' ''description''"]
      fst_entry [of "''author''" "meta_value soup ''name'' ''author''"]
      fst_entry [of "''keywords''" "meta_value soup ''name'' ''keywords''"] by auto
  show ?thesis
    unfolding extract_metadata_def Let_def s1 foldl.simps
      set_from_meta_tag_append [OF k1] set_from_meta_tag_append [OF k2]
      set_from_meta_tag_append [OF k3] set_from_meta_tag_append [OF k4]
    by simp
qed

lemma extract_metadata_keys:
  "map fst (extract_metadata soup) =
     filter (\<lambda>k. k \<in> fst ` set (extract_metadata soup)) METADATA_KEYS"
  unfolding extract_metadata_entries METADATA_KEYS_def
  by (cases "title_value soup"; cases "meta_value soup ''name'' ''description''";
      cases "meta_value soup ''name'' ''author''"; cases "meta_value soup ''name'' ''keywords''";
      cases "meta_value soup ''property'' ''og:image''")
    (simp_all add: entry_def)

lemma extract_metadata_lookup:
  "map_of (extract_metadata soup) ''title'' = title_value soup"
  "map_of (extract_metadata soup) ''description'' = meta_value soup ''name'' ''description''"
  "map_of (extract_metadata soup) ''author'' = meta_value soup ''name'' ''author''"
  "map_of (extract_metadata soup) ''keywords'' = meta_value soup ''name'' ''keywords''"
  "map_of (extract_metadata soup) ''image'' = meta_value soup ''property'' ''og:image''"
  unfolding extract_metadata_entries
  by (cases "title_value soup"; cases "meta_value soup ''name'' ''description''";
      cases "meta_value soup ''name'' ''author''"; cases "meta_value soup ''name'' ''keywords''";
      cases "meta_value soup ''property'' ''og:image''"; simp add: entry_def)+

lemmas tree_evals = soup_find_def tag_matches_def attr_matches_def class_list_def
  BeautifulSoup_def

text \<open>
  C5. The claim fails on a source that holds only whitespace: the test for an empty
  value runs before \<open>strip()\<close>, so the stored value is the empty string. Here the
  document is \<open><head><title> </title><meta name=author content=" "></head>\<close>.
\<close>

theorem extract_metadata_empty_entries:
  "extract_metadata
     (Element 0 ''[document]'' []
        [Element 1 ''head'' []
           [Element 2 ''title'' [] [Text '' ''],
            Element 3 ''meta'' [(''name'', ''author''), (''content'', '' '')] []]]) =
   [(''title'', []), (''author'', [])]"
  by (simp add: extract_metadata_def set_from_meta_tag_def dict_set_def tree_evals string_evals)

text \<open>
  C6 as stated fails where the text content of the title element and its \<open>string\<close>
  part. For a title element with more than one child the text content is not empty and
  no title is stored: here \<open><title>A<b>B</b></title>\<close>. For a title element whose only
  child is a comment the text content is empty and the comment is stored as the title:
  here \<open><title><!--c--></title>\<close>.
\<close>

theorem title_with_children_omitted:
  "soup_find ''title'' []
     (Element 0 ''[document]'' []
        [Element 1 ''title'' [] [Text ''A'', Element 2 ''b'' [] [Text ''B'']]]) =
     Some (Element 1 ''title'' [] [Text ''A'', Element 2 ''b'' [] [Text ''B'']]) \<and>
   strip (get_text (Element 1 ''title'' [] [Text ''A'', Element 2 ''b'' [] [Text ''B'']])) = ''AB'' \<and>
   map_of (extract_metadata
     (Element 0 ''[document]'' []
        [Element 1 ''title'' [] [Text ''A'', Element 2 ''b'' [] [Text ''B'']]])) ''title'' = None \<and>
   soup_find ''title'' []
     (Element 0 ''[document]'' [] [Element 1 ''title'' [] [Comment ''c'']]) =
     Some (Element 1 ''title'' [] [Comment ''c'']) \<and>
   strip (get_text (Element 1 ''title'' [] [Comment ''c''])) = [] \<and>
   map_of (extract_metadata
     (Element 0 ''[document]'' [] [Element 1 ''title'' [] [Comment ''c'']])) ''title'' = Some ''c''"
  by (simp add: extract_metadata_def set_from_meta_tag_def dict_set_def tree_evals string_evals)

text \<open>
  C6, amended. With \<open>m\<close> the extracted metadata: the title is the trimmed string of the
  first title element when the element has a string (\<open>tag.string\<close>: its only child is a
  text node or a comment, looked up through only children) whose trimmed value is not
  empty; there is no title when there is no title element, or it has no string, or its
  string is empty. \<open>description\<close>, \<open>author\<close> and \<open>keywords\<close> are the trimmed \<open>content\<close>
  attribute of the first \<open>meta\<close> element whose \<open>name\<close> is the key, and \<open>image\<close> that of
  the first \<open>meta\<close> element whose \<open>property\<close> is \<open>og:image\<close>, when the trimmed value is
  not empty; the key is absent when there is no such element, or it has no \<open>content\<close>,
  or an empty one. No other key is ever present.
\<close>

theorem extract_metadata_rules:
  "(soup_find ''title'' [] soup = Some t \<and> tag_string t = Some s \<and> strip s \<noteq> [] \<longrightarrow>
      map_of (extract_metadata soup) ''title'' = Some (strip s)) \<and>
   (soup_find ''title'' [] soup = None \<or>
      (soup_find ''title'' [] soup = Some t \<and> (tag_string t = None \<or> tag_string t = Some [])) \<longrightarrow>
      map_of (extract_metadata soup) ''title'' = None) \<and>
   (key \<in> set [''description'', ''author'', ''keywords''] \<and>
      soup_find ''meta'' [(''name'', key)] soup = Some tag \<and>
      get_attr tag ''content'' = Some c \<and> strip c \<noteq> [] \<longrightarrow>
      map_of (extract_metadata soup) key = Some (strip c)) \<and>
   (key \<in> set [''description'', ''author'', ''keywords''] \<and>
      (soup_find ''meta'' [(''name'', key)] soup = None \<or>
       (soup_find ''meta'' [(''name'', key)] soup = Some tag \<and>
          (get_attr tag ''content'' = None \<or> get_attr tag ''content'' = Some []))) \<longrightarrow>
      map_of (extract_metadata soup) key = None) \<and>
   (soup_find ''meta'' [(''property'', ''og:image'')] soup = Some img \<and>
      get_attr img ''content'' = Some u \<and> strip u \<noteq> [] \<longrightarrow>
      map_of (extract_metadata soup) ''image'' = Some (strip u)) \<and>
   (soup_find ''meta'' [(''property'', ''og:image'')] soup = None \<or>
      (soup_find ''meta'' [(''property'', ''og:image'')] soup = Some img \<and>
         (get_attr img ''content'' = None \<or> get_attr img ''content'' = Some [])) \<longrightarrow>
      map_of (extract_metadata soup) ''image'' = None) \<and>
   fst ` set (extract_metadata soup) \<subseteq> set METADATA_KEYS"
proof (intro conjI impI)
  assume a: "soup_find ''title'' [] soup = Some t \<and> tag_string t = Some s \<and> strip s \<noteq> []"
  then have "s \<noteq> []" by (auto simp: string_evals)
  with a have "title_value soup = Some (strip s)"
    by (simp add: title_value_def)
  then show "map_of (extract_metadata soup) ''title'' = Some (strip s)"
    by (simp add: extract_metadata_lookup)
next
  assume "soup_find ''title'' [] soup = None \<or>
      (soup_find ''title'' [] soup = Some t \<and> (tag_string t = None \<or> tag_string t = Some []))"
  then have "title_value soup = None"
    by (auto simp: title_value_def)
  then show "map_of (extract_metadata soup) ''title'' = None"
    by (simp add: extract_metadata_lookup)
next
  assume a: "key \<in> set [''description'', ''author'', ''keywords''] \<and>
      soup_find ''meta'' [(''name'', key)] soup = Some tag \<and>
      get_attr tag ''content'' = Some c \<and> strip c \<noteq> []"
  then have "c \<noteq> []" by (auto simp: string_evals)
  with a have "meta_value soup ''name'' key = Some (strip c)"
    by (simp add: meta_value_def)
  with a show "map_of (extract_metadata soup) key = Some (strip c)"
    by (auto simp: extract_metadata_lookup)
next
  assume a: "key \<in> set [''description'', ''author'', ''keywords''] \<and>
      (soup_find ''meta'' [(''name'', key)] soup = None \<or>
       (soup_find ''meta'' [(''name'', key)] soup = Some tag \<and>
          (get_attr tag ''content'' = None \<or> get_attr tag ''content'' = Some [])))"
  then have "meta_value soup ''name'' key = None"
    by (auto simp: meta_value_def)
  with a show "map_of (extract_metadata soup) key = None"
    by (auto simp: extract_metadata_lookup)
next
  assume a: "soup_find ''meta'' [(''property'', ''og:image'')] soup = Some img \<and>
      get_attr img ''content'' = Some u \<and> strip u \<noteq> []"
  then have "u \<noteq> []" by (auto simp: string_evals)
  with a have "meta_value soup ''property'' ''og:image'' = Some (strip u)"
    by (simp add: meta_value_def)
  then show "map_of (extract_metadata soup) ''image'' = Some (strip u)"
    by (simp add: extract_metadata_lookup)
next
  assume "soup_find ''meta'' [(''property'', ''og:image'')] soup = None \<or>
      (soup_find ''meta'' [(''property'', ''og:image'')] soup = Some img \<and>
         (get_attr img ''content'' = None \<or> get_attr img ''content'' = Some []))"
  then have "meta_value soup ''property'' ''og:image'' = None"
    by (auto simp: meta_value_def)
  then show "map_of (extract_metadata soup) ''image'' = None"
    by (simp add: extract_metadata_lookup)
next
  have "set (map fst (extract_metadata soup)) \<subseteq> set METADATA_KEYS"
    by (subst extract_metadata_keys) auto
  then show "fst ` set (extract_metadata soup) \<subseteq> set METADATA_KEYS" by simp
qed

theorem extract_metadata_rules_witness:
  "map_of (extract_metadata sample_document) ''title'' = Some ''No Main'' \<and>
   map_of (extract_metadata sample_document) ''description'' = Some ''Eine Testseite'' \<and>
   map_of (extract_metadata sample_document) ''keywords'' = None \<and>
   map_of (extract_metadata sample_document) ''author'' = None \<and>
   map_of (extract_metadata sample_document) ''image'' = Some ''https://example.com/image.jpg''"
proof -
  let ?title = "Element 3 ''title'' [] [Text '' No Main '']"
  let ?descr = "Element 4 ''meta'' [(''name'', ''description''), (''content'', ''Eine Testseite '')] []"
  let ?keyw = "Element 5 ''meta'' [(''name'', ''keywords'')] []"
  let ?img = "Element 6 ''meta''
                [(''property'', ''og:image''), (''content'', ''https://example.com/image.jpg'')] []"
  have t: "soup_find ''title'' [] sample_document = Some ?title \<and>
      tag_string ?title = Some '' No Main '' \<and> strip '' No Main '' \<noteq> [] \<and>
      strip '' No Main '' = ''No Main''"
    by (simp add: sample_document_def sample_html_def tree_evals string_evals)
  have d: "soup_find ''meta'' [(''name'', ''description'')] sample_document = Some ?descr \<and>
      get_attr ?descr ''content'' = Some ''Eine Testseite '' \<and>
      strip ''Eine Testseite '' = ''Eine Testseite''"
    by (simp add: sample_document_def sample_html_def tree_evals string_evals)
  have k: "soup_find ''meta'' [(''name'', ''keywords'')] sample_document = Some ?keyw \<and>
      get_attr ?keyw ''content'' = None"
    by (simp add: sample_document_def sample_html_def tree_evals string_evals)
  have a: "soup_find ''meta'' [(''name'', ''author'')] sample_document = None"
    by (simp add: sample_document_def sample_html_def tree_evals string_evals)
  have i: "soup_find ''meta'' [(''property'', ''og:image'')] sample_document = Some ?img \<and>
      get_attr ?img ''content'' = Some ''https://example.com/image.jpg'' \<and>
      strip ''https://example.com/image.jpg'' = ''https://example.com/image.jpg''"
    by (simp add: sample_document_def sample_html_def tree_evals string_evals)
  show ?thesis
    using extract_metadata_rules [where soup = sample_document and t = ?title
        and s = "'' No Main ''" and key = "''description''" and tag = ?descr
        and c = "''Eine Testseite ''" and img = ?img and u = "''https://example.com/image.jpg''"]
      extract_metadata_rules [where soup = sample_document and key = "''keywords''"
        and tag = ?keyw and t = ?title and s = "[]" and c = "[]" and img = ?img and u = "[]"]
      extract_metadata_rules [where soup = sample_document and key = "''author''"
        and tag = ?keyw and t = ?title and s = "[]" and c = "[]" and img = ?img and u = "[]"]
      t d k a i
    by simp
qed

section \<open>The front matter\<close>

lemma join_lines:
  "join sep (x # xs @ [y]) = x @ concat (map (\<lambda>l. sep @ l) xs) @ sep @ y"
  by (induction xs arbitrary: x) simp_all

lemma front_matter_line_eq:
  "front_matter_line kv =
     fst kv @ '': '' @ [CHR 0x22] @ safe_value (snd kv) @ [CHR 0x22]"
  by (simp add: front_matter_line_def safe_value_def)

lemma build_front_matter_block:
  assumes "metadata \<noteq> []"
  shows "build_front_matter metadata body =
     ''---'' @ concat (map (\<lambda>kv. [CHR 0x0A] @ fst kv @ '': '' @ [CHR 0x22] @
        safe_value (snd kv) @ [CHR 0x22]) metadata) @
     [CHR 0x0A] @ ''---'' @ [CHR 0x0A, CHR 0x0A] @ body"
proof -
  have "join [CHR 0x0A] ([''---''] @ map front_matter_line metadata @ [''---'']) =
      ''---'' @ concat (map (\<lambda>l. [CHR 0x0A] @ l) (map front_matter_line metadata)) @
      [CHR 0x0A] @ ''---''"
    using join_lines [of "[CHR 0x0A]" "''---''" "map front_matter_line metadata" "''---''"]
    by simp
  then show ?thesis
    using assms by (simp add: build_front_matter_def comp_def front_matter_line_eq)
qed

lemma quotes_escaped_snoc:
  "quotes_escaped xs \<Longrightarrow> c \<noteq> CHR 0x22 \<Longrightarrow> quotes_escaped (xs @ [c])"
  by (auto simp: quotes_escaped_def nth_append less_Suc_eq)

lemma quotes_escaped_snoc_quote:
  "quotes_escaped xs \<Longrightarrow> quotes_escaped (xs @ [CHR 0x5C, CHR 0x22])"
  by (auto simp: quotes_escaped_def nth_append less_Suc_eq Suc_diff_le)

lemma quotes_escaped_safe_value: "quotes_escaped (safe_value v)"
proof (induction v rule: rev_induct)
  case Nil
  show ?case by (simp add: quotes_escaped_def safe_value_def replace_char_def)
next
  case (snoc c v)
  have "safe_value (v @ [c]) =
      safe_value v @ (if c = CHR 0x22 then [CHR 0x5C, CHR 0x22] else [c])"
    by (simp add: safe_value_def replace_char_def)
  with snoc show ?case
    using quotes_escaped_snoc [of "safe_value v" c]
      quotes_escaped_snoc_quote [of "safe_value v"] by simp
qed

lemma splitlines_line:
  "\<not> list_ex islinebreak l \<Longrightarrow> splitlines (l @ CHR 0x0A # rest) = l # splitlines rest"
proof (induction l)
  case Nil
  show ?case by (simp add: islinebreak_def linebreaks_def)
next
  case (Cons c l)
  then have c: "\<not> islinebreak c" and l: "\<not> list_ex islinebreak l" by simp_all
  from c have "c \<noteq> CHR 0x0D" by (auto simp: islinebreak_def linebreaks_def)
  with c show ?case using Cons.IH [OF l] by simp
qed

lemma splitlines_lines:
  "\<forall>l \<in> set ls. \<not> list_ex islinebreak l \<Longrightarrow>
   splitlines (concat (map (\<lambda>l. l @ [CHR 0x0A]) ls) @ rest) = ls @ splitlines rest"
  by (induction ls) (simp_all add: splitlines_line)

lemma join_terminated:
  "ls \<noteq> [] \<Longrightarrow> join sep ls @ sep = concat (map (\<lambda>l. l @ sep) ls)"
  by (induction sep ls rule: join.induct) simp_all

lemma linebreak_safe_value: "list_ex islinebreak (safe_value v) = list_ex islinebreak v"
  by (induction v) (auto simp: safe_value_def replace_char_def islinebreak_def linebreaks_def)

lemma linebreak_front_matter_line:
  "list_ex islinebreak (front_matter_line kv) =
     (list_ex islinebreak (fst kv) \<or> list_ex islinebreak (snd kv))"
  by (simp add: front_matter_line_eq linebreak_safe_value)
    (simp add: islinebreak_def linebreaks_def)

lemma build_front_matter_lines:
  assumes "metadata \<noteq> []"
    and "\<forall>kv \<in> set metadata. \<not> list_ex islinebreak (fst kv) \<and> \<not> list_ex islinebreak (snd kv)"
  shows "splitlines (build_front_matter metadata body) =
     [''---''] @ map front_matter_line metadata @ [''---'', []] @ splitlines body"
proof -
  let ?fl = "[''---''] @ map front_matter_line metadata @ [''---'']"
  have "build_front_matter metadata body =
      (join [CHR 0x0A] ?fl @ [CHR 0x0A]) @ ([] @ [CHR 0x0A]) @ body"
    using assms(1) by (simp add: build_front_matter_def)
  also have "join [CHR 0x0A] ?fl @ [CHR 0x0A] = concat (map (\<lambda>l. l @ [CHR 0x0A]) ?fl)"
    by (rule join_terminated) simp
  finally have "build_front_matter metadata body =
      concat (map (\<lambda>l. l @ [CHR 0x0A]) (?fl @ [[]])) @ body"
    by simp
  moreover have "\<forall>l \<in> set (?fl @ [[]]). \<not> list_ex islinebreak l"
    using assms(2) by (auto simp: linebreak_front_matter_line islinebreak_def linebreaks_def)
  ultimately show ?thesis
    using splitlines_lines [of "?fl @ [[]]" body] by simp
qed

lemma html_to_markdown_steps:
  "html_to_markdown html_parser md extra_strip html page_url =
     (case sanitized_root html_parser extra_strip html of
        Inl e \<Rightarrow> Inl e
      | Inr root \<Rightarrow>
          Inr (build_front_matter (extract_metadata (BeautifulSoup html_parser html))
                 (clean_blank_lines (md root)),
               extract_metadata (BeautifulSoup html_parser html)))"
  by (simp add: html_to_markdown_def sanitized_root_def Let_def split: sum.splits)

text \<open>
  C3 as stated fails in two places. With empty metadata the output is the body, and a
  body may itself open with \<open>---\<close>: the serializer writes a thematic break that way, so
  the document \<open><hr><p>x</p>\<close>, which has no metadata, gives such an output; the
  serializer of this example writes \<open>hr\<close> as the library does and a text node as its
  text. And an entry is not always one line: \<open>strip()\<close> keeps the line breaks inside a
  value, so the title of \<open><title>A\<close>, \<open>---\<close>, \<open>B</title>\<close> (three lines) gives an
  entry of three lines, the second a bare \<open>---\<close>.
\<close>

theorem front_matter_absent_output_starts_with_rule:
  "build_front_matter [] ''---'' = ''---'' \<and>
   html_to_markdown (\<lambda>html. [Element 1 ''hr'' [] [], Element 2 ''p'' [] [Text ''x'']])
     (\<lambda>root. concat (map (\<lambda>n. if tag_name n = Some ''hr''
          then [CHR 0x0A, CHR 0x0A] @ ''---'' @ [CHR 0x0A, CHR 0x0A]
          else (case n of Text s \<Rightarrow> s | _ \<Rightarrow> [])) (descendants root)))
     [] ''<hr><p>x</p>'' [] =
   Inr (''---'' @ [CHR 0x0A, CHR 0x0A] @ ''x'', []) \<and>
   extract_metadata
     (Element 0 ''[document]'' []
        [Element 1 ''title'' [] [Text (''A'' @ [CHR 0x0A] @ ''---'' @ [CHR 0x0A] @ ''B'')]]) =
     [(''title'', ''A'' @ [CHR 0x0A] @ ''---'' @ [CHR 0x0A] @ ''B'')] \<and>
   splitlines
     (build_front_matter [(''title'', ''A'' @ [CHR 0x0A] @ ''---'' @ [CHR 0x0A] @ ''B'')] ''x'') =
     [''---'', ''title: '' @ [CHR 0x22] @ ''A'', ''---'', ''B'' @ [CHR 0x22], ''---'', [], ''x'']"
  by code_simp

text \<open>
  C3, amended. With metadata the output is \<open>---\<close>, one entry \<open>key: "value"\<close> per entry
  of the metadata in their order, each after a line feed, then \<open>---\<close>, an empty line
  and the body; in the value every double quote stands after a backslash. When no key
  and no value holds a line break, the lines of the output are \<open>---\<close>, one line per
  entry, \<open>---\<close>, an empty line and the lines of the body. Without metadata the output is
  the body as it is, so it opens with \<open>---\<close> only when the body does. The keys of the
  extracted metadata are those of \<open>title\<close>, \<open>description\<close>, \<open>author\<close>, \<open>keywords\<close>,
  \<open>image\<close> that are present, in that order, and \<open>html_to_markdown\<close>, when step 3 raises
  nothing, composes the extracted metadata with the cleaned output of the serializer.
\<close>

theorem front_matter_composition:
  "(metadata \<noteq> [] \<longrightarrow>
      build_front_matter metadata body =
        ''---'' @ concat (map (\<lambda>kv. [CHR 0x0A] @ fst kv @ '': '' @ [CHR 0x22] @
           safe_value (snd kv) @ [CHR 0x22]) metadata) @
        [CHR 0x0A] @ ''---'' @ [CHR 0x0A, CHR 0x0A] @ body) \<and>
   (metadata \<noteq> [] \<and>
      (\<forall>kv \<in> set metadata. \<not> list_ex islinebreak (fst kv) \<and> \<not> list_ex islinebreak (snd kv)) \<longrightarrow>
      splitlines (build_front_matter metadata body) =
        [''---''] @
        map (\<lambda>kv. fst kv @ '': '' @ [CHR 0x22] @ safe_value (snd kv) @ [CHR 0x22]) metadata @
        [''---'', []] @ splitlines body) \<and>
   (metadata = [] \<longrightarrow> build_front_matter metadata body = body) \<and>
   quotes_escaped (safe_value v) \<and>
   map fst (extract_metadata soup) =
     filter (\<lambda>k. k \<in> fst ` set (extract_metadata soup)) METADATA_KEYS \<and>
   html_to_markdown html_parser md extra_strip html page_url =
     (case sanitized_root html_parser extra_strip html of
        Inl e \<Rightarrow> Inl e
      | Inr root \<Rightarrow>
          Inr (build_front_matter (extract_metadata (BeautifulSoup html_parser html))
                 (clean_blank_lines (md root)),
               extract_metadata (BeautifulSoup html_parser html)))"
proof (intro conjI impI)
  assume "metadata \<noteq> []"
  then show "build_front_matter metadata body =
        ''---'' @ concat (map (\<lambda>kv. [CHR 0x0A] @ fst kv @ '': '' @ [CHR 0x22] @
           safe_value (snd kv) @ [CHR 0x22]) metadata) @
        [CHR 0x0A] @ ''---'' @ [CHR 0x0A, CHR 0x0A] @ body"
    by (rule build_front_matter_block)
next
  assume a: "metadata \<noteq> [] \<and>
      (\<forall>kv \<in> set metadata. \<not> list_ex islinebreak (fst kv) \<and> \<not> list_ex islinebreak (snd kv))"
  have "map front_matter_line metadata =
      map (\<lambda>kv. fst kv @ '': '' @ [CHR 0x22] @ safe_value (snd kv) @ [CHR 0x22]) metadata"
    by (simp add: front_matter_line_eq)
  then show "splitlines (build_front_matter metadata body) =
        [''---''] @
        map (\<lambda>kv. fst kv @ '': '' @ [CHR 0x22] @ safe_value (snd kv) @ [CHR 0x22]) metadata @
        [''---'', []] @ splitlines body"
    using a build_front_matter_lines [of metadata body] by simp
next
  assume "metadata = []"
  then show "build_front_matter metadata body = body"
    by (simp add: build_front_matter_def)
next
  show "quotes_escaped (safe_value v)" by (rule quotes_escaped_safe_value)
next
  show "map fst (extract_metadata soup) =
     filter (\<lambda>k. k \<in> fst ` set (extract_metadata soup)) METADATA_KEYS"
    by (rule extract_metadata_keys)
next
  show "html_to_markdown html_parser md extra_strip html page_url =
     (case sanitized_root html_parser extra_strip html of
        Inl e \<Rightarrow> Inl e
      | Inr root \<Rightarrow>
          Inr (build_front_matter (extract_metadata (BeautifulSoup html_parser html))
                 (clean_blank_lines (md root)),
               extract_metadata (BeautifulSoup html_parser html)))"
    by (rule html_to_markdown_steps)
qed

theorem front_matter_composition_witness:
  "build_front_matter [(''title'', ''Say '' @ [CHR 0x22] @ ''Hi'' @ [CHR 0x22]), (''author'', ''A'')]
      ''Hello'' =
     ''---'' @ [CHR 0x0A] @
     ''title: '' @ [CHR 0x22] @ ''Say '' @ [CHR 0x5C, CHR 0x22] @ ''Hi'' @ [CHR 0x5C, CHR 0x22] @
       [CHR 0x22] @ [CHR 0x0A] @
     ''author: '' @ [CHR 0x22] @ ''A'' @ [CHR 0x22] @ [CHR 0x0A] @
     ''---'' @ [CHR 0x0A, CHR 0x0A] @ ''Hello'' \<and>
   splitlines
     (build_front_matter [(''title'', ''Say '' @ [CHR 0x22] @ ''Hi'' @ [CHR 0x22]), (''author'', ''A'')]
        ''Hello'') =
     [''---'',
      ''title: '' @ [CHR 0x22] @ ''Say '' @ [CHR 0x5C, CHR 0x22] @ ''Hi'' @ [CHR 0x5C, CHR 0x22] @
        [CHR 0x22],
      ''author: '' @ [CHR 0x22] @ ''A'' @ [CHR 0x22],
      ''---'', [], ''Hello''] \<and>
   build_front_matter [] ''Hello'' = ''Hello'' \<and>
   safe_value (''a'' @ [CHR 0x22]) ! (2 - 1) = CHR 0x5C \<and>
   map fst (extract_metadata sample_document) = [''title'', ''description'', ''image'']"
proof -
  let ?m = "[(''title'', ''Say '' @ [CHR 0x22] @ ''Hi'' @ [CHR 0x22]), (''author'', ''A'')]"
  have 1: "?m \<noteq> [] \<and>
      (\<forall>kv \<in> set ?m. \<not> list_ex islinebreak (fst kv) \<and> \<not> list_ex islinebreak (snd kv))"
    by (simp add: islinebreak_def linebreaks_def)
  have 2: "safe_value (''Say '' @ [CHR 0x22] @ ''Hi'' @ [CHR 0x22]) =
      ''Say '' @ [CHR 0x5C, CHR 0x22] @ ''Hi'' @ [CHR 0x5C, CHR 0x22] \<and> safe_value ''A'' = ''A''"
    by (simp add: safe_value_def replace_char_def)
  have 3: "(2::nat) < length (safe_value (''a'' @ [CHR 0x22])) \<and>
      safe_value (''a'' @ [CHR 0x22]) ! 2 = CHR 0x22"
    by (simp add: safe_value_def replace_char_def)
  have 4: "fst ` set (extract_metadata sample_document) = {''title'', ''description'', ''image''}"
    by (simp add: extract_metadata_entries entry_def title_value_def meta_value_def
        sample_document_def sample_html_def tree_evals string_evals)
  have 5: "quotes_escaped (safe_value (''a'' @ [CHR 0x22])) \<Longrightarrow>
      safe_value (''a'' @ [CHR 0x22]) ! (2 - 1) = CHR 0x5C"
    using 3 unfolding quotes_escaped_def by blast
  have 6: "splitlines ''Hello'' = [''Hello'']"
    by (simp add: islinebreak_def linebreaks_def)
  note T = front_matter_composition [where metadata = ?m and body = "''Hello''"
        and v = "''a'' @ [CHR 0x22]" and soup = sample_document]
  have a: "build_front_matter ?m ''Hello'' =
        ''---'' @ concat (map (\<lambda>kv. [CHR 0x0A] @ fst kv @ '': '' @ [CHR 0x22] @
           safe_value (snd kv) @ [CHR 0x22]) ?m) @
        [CHR 0x0A] @ ''---'' @ [CHR 0x0A, CHR 0x0A] @ ''Hello''"
    using T 1 by blast
  have b: "splitlines (build_front_matter ?m ''Hello'') =
        [''---''] @
        map (\<lambda>kv. fst kv @ '': '' @ [CHR 0x22] @ safe_value (snd kv) @ [CHR 0x22]) ?m @
        [''---'', []] @ splitlines ''Hello''"
    using T 1 by blast
  have c: "safe_value (''a'' @ [CHR 0x22]) ! (2 - 1) = CHR 0x5C"
    using T 5 by blast
  have d: "map fst (extract_metadata sample_document) =
     filter (\<lambda>k. k \<in> fst ` set (extract_metadata sample_document)) METADATA_KEYS"
    using T by blast
  have e: "build_front_matter [] ''Hello'' = ''Hello''"
    using front_matter_composition [where metadata = "[]" and body = "''Hello''"] by blast
  from a 2 have a': "build_front_matter ?m ''Hello'' =
     ''---'' @ [CHR 0x0A] @
     ''title: '' @ [CHR 0x22] @ ''Say '' @ [CHR 0x5C, CHR 0x22] @ ''Hi'' @ [CHR 0x5C, CHR 0x22] @
       [CHR 0x22] @ [CHR 0x0A] @
     ''author: '' @ [CHR 0x22] @ ''A'' @ [CHR 0x22] @ [CHR 0x0A] @
     ''---'' @ [CHR 0x0A, CHR 0x0A] @ ''Hello''"
    by simp
  from b 2 6 have b': "splitlines (build_front_matter ?m ''Hello'') =
     [''---'',
      ''title: '' @ [CHR 0x22] @ ''Say '' @ [CHR 0x5C, CHR 0x22] @ ''Hi'' @ [CHR 0x5C, CHR 0x22] @
        [CHR 0x22],
      ''author: '' @ [CHR 0x22] @ ''A'' @ [CHR 0x22],
      ''---'', [], ''Hello'']"
    by simp
  from d 4 have d': "map fst (extract_metadata sample_document) =
      [''title'', ''description'', ''image'']"
    by (simp add: METADATA_KEYS_def)
  from a' b' e c d' show ?thesis by (intro conjI)
qed

section \<open>The content root\<close>

lemma find_first:
  "P e \<Longrightarrow> \<forall>d \<in> set pre. \<not> P d \<Longrightarrow> List.find P (pre @ e # post) = Some e"
  by (induction pre) simp_all

lemma find_in_set: "List.find P ds = Some e \<Longrightarrow> e \<in> set ds"
  by (induction ds) (auto split: if_splits)

lemma first_of_tiers_None:
  "\<forall>p \<in> set ts. \<forall>d \<in> set ds. \<not> p d \<Longrightarrow> first_of_tiers ts ds = None"
  by (induction ts) (auto simp: find_None_iff split: option.splits)

lemma first_of_tiers_Some:
  "k < length ts \<Longrightarrow> (ts ! k) e \<Longrightarrow> \<forall>d \<in> set pre. \<not> (ts ! k) d \<Longrightarrow>
   \<forall>p \<in> set (take k ts). \<forall>d \<in> set (pre @ e # post). \<not> p d \<Longrightarrow>
   first_of_tiers ts (pre @ e # post) = Some e"
proof (induction ts arbitrary: k)
  case Nil
  then show ?case by simp
next
  case (Cons p ps)
  show ?case
  proof (cases k)
    case 0
    with Cons.prems show ?thesis by (simp add: find_first)
  next
    case (Suc j)
    with Cons.prems have "List.find p (pre @ e # post) = None"
      by (auto simp: find_None_iff)
    moreover have "first_of_tiers ps (pre @ e # post) = Some e"
      using Cons.IH [of j] Cons.prems Suc by auto
    ultimately show ?thesis by simp
  qed
qed

lemma first_of_tiers_in_set: "first_of_tiers ts ds = Some e \<Longrightarrow> e \<in> set ds"
  by (induction ts) (auto split: option.splits dest: find_in_set)

lemma tag_matches_tiers:
  "tag_matches nm [] = is_tag nm"
  "tag_matches nm [(''id'', x)] = (\<lambda>n. is_tag nm n \<and> has_id x n)"
  "tag_matches nm [(''class'', c)] = (\<lambda>n. is_tag nm n \<and> has_class c n)"
  by (auto simp: tag_matches_def is_tag_def has_id_def has_class_def attr_matches_def fun_eq_iff
      split: option.splits)

lemma content_root_first_of_tiers:
  "content_root soup =
     (case first_of_tiers root_tiers (descendants soup) of Some e \<Rightarrow> e | None \<Rightarrow> soup)"
  by (simp add: content_root_def soup_find_def root_tiers_def tag_matches_tiers
      split: option.splits)

text \<open>
  C1 as stated fails in its third tier: an element of identifier \<open>content\<close> that is
  not a \<open>div\<close> is passed over. In \<open><body><section id="content">x</section></body>\<close> no
  \<open>main\<close> and no \<open>article\<close> exists and the section is the first element of that
  identifier, yet the content root is the body.
\<close>

theorem content_root_ignores_section:
  "descendants
     (Element 0 ''[document]'' []
        [Element 1 ''body'' [] [Element 2 ''section'' [(''id'', ''content'')] [Text ''x'']]]) =
     [Element 1 ''body'' [] [Element 2 ''section'' [(''id'', ''content'')] [Text ''x'']]] @
     Element 2 ''section'' [(''id'', ''content'')] [Text ''x''] # [Text ''x''] \<and>
   (specified_tiers ! 2) (Element 2 ''section'' [(''id'', ''content'')] [Text ''x'']) \<and>
   \<not> (specified_tiers ! 2)
       (Element 1 ''body'' [] [Element 2 ''section'' [(''id'', ''content'')] [Text ''x'']]) \<and>
   list_all (\<lambda>p. list_all (\<lambda>d. \<not> p d)
       (descendants
          (Element 0 ''[document]'' []
             [Element 1 ''body'' [] [Element 2 ''section'' [(''id'', ''content'')] [Text ''x'']]])))
     (take 2 specified_tiers) \<and>
   content_root
     (Element 0 ''[document]'' []
        [Element 1 ''body'' [] [Element 2 ''section'' [(''id'', ''content'')] [Text ''x'']]]) \<noteq>
     Element 2 ''section'' [(''id'', ''content'')] [Text ''x'']"
  by (simp add: specified_tiers_def is_tag_def has_id_def content_root_def tree_evals)

text \<open>
  C1, amended. The tiers are, in this order: a \<open>main\<close> element, an \<open>article\<close> element,
  a \<open>div\<close> element whose identifier is \<open>content\<close>, a \<open>div\<close> element whose class list
  contains \<open>content\<close>, the first \<open>body\<close> element. When tier \<open>k\<close> has a match \<open>e\<close> in
  the document, no node before \<open>e\<close> in document order matches tier \<open>k\<close> and no tier
  before \<open>k\<close> has any match, the content root is \<open>e\<close>; when no tier has a match it is
  the whole document. The root is always the document or one of its nodes.
\<close>

theorem content_root_fallback_chain:
  "(k < length root_tiers \<and> descendants soup = pre @ e # post \<and> (root_tiers ! k) e \<and>
      (\<forall>d \<in> set pre. \<not> (root_tiers ! k) d) \<and>
      (\<forall>p \<in> set (take k root_tiers). \<forall>d \<in> set (descendants soup). \<not> p d) \<longrightarrow>
        content_root soup = e) \<and>
   ((\<forall>p \<in> set root_tiers. \<forall>d \<in> set (descendants soup). \<not> p d) \<longrightarrow>
        content_root soup = soup) \<and>
   (content_root soup = soup \<or> content_root soup \<in> set (descendants soup))"
proof (intro conjI impI)
  assume a: "k < length root_tiers \<and> descendants soup = pre @ e # post \<and> (root_tiers ! k) e \<and>
      (\<forall>d \<in> set pre. \<not> (root_tiers ! k) d) \<and>
      (\<forall>p \<in> set (take k root_tiers). \<forall>d \<in> set (descendants soup). \<not> p d)"
  then have "first_of_tiers root_tiers (pre @ e # post) = Some e"
    by (intro first_of_tiers_Some) auto
  with a show "content_root soup = e"
    by (simp add: content_root_first_of_tiers)
next
  assume "\<forall>p \<in> set root_tiers. \<forall>d \<in> set (descendants soup). \<not> p d"
  then have "first_of_tiers root_tiers (descendants soup) = None"
    by (rule first_of_tiers_None)
  then show "content_root soup = soup"
    by (simp add: content_root_first_of_tiers)
next
  show "content_root soup = soup \<or> content_root soup \<in> set (descendants soup)"
    by (auto simp: content_root_first_of_tiers split: option.splits
        dest: first_of_tiers_in_set)
qed

theorem content_root_fallback_chain_witness:
  "content_root
     (Element 0 ''[document]'' []
        [Element 1 ''body'' []
           [Element 2 ''div'' [(''id'', ''content'')] [Text ''a''],
            Element 3 ''main'' [] [Text ''b'']]]) =
     Element 3 ''main'' [] [Text ''b''] \<and>
   content_root
     (Element 0 ''[document]'' []
        [Element 1 ''body'' []
           [Element 2 ''p'' [(''class'', ''content'')] [Text ''a''],
            Element 3 ''div'' [(''class'', ''main content'')] [Text ''b'']]]) =
     Element 3 ''div'' [(''class'', ''main content'')] [Text ''b''] \<and>
   content_root (Element 0 ''[document]'' [] [Element 1 ''p'' [] [Text ''Hello World'']]) =
     Element 0 ''[document]'' [] [Element 1 ''p'' [] [Text ''Hello World'']]"
proof -
  let ?div = "Element 2 ''div'' [(''id'', ''content'')] [Text ''a'']"
  let ?main = "Element 3 ''main'' [] [Text ''b'']"
  let ?body = "Element 1 ''body'' [] [?div, ?main]"
  let ?doc = "Element 0 ''[document]'' [] [?body]"
  let ?p = "Element 2 ''p'' [(''class'', ''content'')] [Text ''a'']"
  let ?cdiv = "Element 3 ''div'' [(''class'', ''main content'')] [Text ''b'']"
  let ?body2 = "Element 1 ''body'' [] [?p, ?cdiv]"
  let ?doc2 = "Element 0 ''[document]'' [] [?body2]"
  let ?doc3 = "Element 0 ''[document]'' [] [Element 1 ''p'' [] [Text ''Hello World'']]"
  have 1: "0 < length root_tiers \<and> descendants ?doc = [?body, ?div, Text ''a''] @ ?main # [Text ''b''] \<and>
      (root_tiers ! 0) ?main \<and> (\<forall>d \<in> set [?body, ?div, Text ''a'']. \<not> (root_tiers ! 0) d) \<and>
      (\<forall>p \<in> set (take 0 root_tiers). \<forall>d \<in> set (descendants ?doc). \<not> p d)"
    by (simp add: root_tiers_def is_tag_def)
  have 2: "3 < length root_tiers \<and> descendants ?doc2 = [?body2, ?p, Text ''a''] @ ?cdiv # [Text ''b''] \<and>
      (root_tiers ! 3) ?cdiv \<and> (\<forall>d \<in> set [?body2, ?p, Text ''a'']. \<not> (root_tiers ! 3) d) \<and>
      (\<forall>p \<in> set (take 3 root_tiers). \<forall>d \<in> set (descendants ?doc2). \<not> p d)"
    by (simp add: root_tiers_def is_tag_def has_id_def has_class_def class_list_def string_evals)
  have 3: "\<forall>p \<in> set root_tiers. \<forall>d \<in> set (descendants ?doc3). \<not> p d"
    by (simp add: root_tiers_def is_tag_def has_id_def has_class_def)
  show ?thesis
    using content_root_fallback_chain [where soup = ?doc and k = 0
        and pre = "[?body, ?div, Text ''a'']" and e = ?main and post = "[Text ''b'']"]
      content_root_fallback_chain [where soup = ?doc2 and k = 3
        and pre = "[?body2, ?p, Text ''a'']" and e = ?cdiv and post = "[Text ''b'']"]
      content_root_fallback_chain [where soup = ?doc3 and k = 0 and pre = "[]"
        and e = ?doc3 and post = "[]"]
      1 2 3
    by blast
qed

section \<open>Pruning a tree\<close>

lemma label_prune [simp]: "label (prune p n) = label n"
  by (cases n) simp_all

lemma ident_label: "ident n = map_option fst (label n)"
  by (cases n) simp_all

lemma tag_name_label: "tag_name n = map_option (fst \<circ> snd) (label n)"
  by (cases n) simp_all

lemma matches_label: "label n = label n' \<Longrightarrow> matches s n = matches s n'"
  by (cases n; cases n'; cases s) simp_all

lemma ident_prune [simp]: "ident (prune p n) = ident n"
  by (simp add: ident_label)

lemma tag_name_prune [simp]: "tag_name (prune p n) = tag_name n"
  by (simp add: tag_name_label)

lemma matches_prune [simp]: "matches s (prune p n) = matches s n"
  by (rule matches_label) simp

lemma decompose_prune: "decompose e n = prune (\<lambda>c. ident c = Some e) n"
  by (induction n) simp_all

lemma prune_prune:
  assumes "\<And>c. p (prune q c) = p c"
  shows "prune p (prune q n) = prune (\<lambda>c. q c \<or> p c) n"
proof (induction n)
  case (Element i t a cs)
  have "map (prune p) (filter (\<lambda>c. \<not> p c) (map (prune q) (filter (\<lambda>c. \<not> q c) cs))) =
      map (prune p \<circ> prune q) (filter (\<lambda>c. \<not> q c \<and> \<not> p c) cs)"
    by (simp add: filter_map comp_def assms conj_commute)
  also have "\<dots> = map (prune (\<lambda>c. q c \<or> p c)) (filter (\<lambda>c. \<not> q c \<and> \<not> p c) cs)"
    using Element.IH by (intro map_cong) auto
  finally show ?case by simp
qed simp_all

lemma prune_cong:
  "(\<And>c. c \<in> set (descendants n) \<Longrightarrow> p c = q c) \<Longrightarrow> prune p n = prune q n"
proof (induction n)
  case (Element i t a cs)
  have f: "filter (\<lambda>c. \<not> p c) cs = filter (\<lambda>c. \<not> q c) cs"
    using Element.prems by (intro filter_cong) auto
  have "map (prune p) (filter (\<lambda>c. \<not> q c) cs) = map (prune q) (filter (\<lambda>c. \<not> q c) cs)"
  proof (intro map_cong refl)
    fix c assume "c \<in> set (filter (\<lambda>c. \<not> q c) cs)"
    then have c: "c \<in> set cs" by simp
    show "prune p c = prune q c"
      using c Element.prems by (intro Element.IH) auto
  qed
  with f show ?case by simp
qed simp_all

lemma prune_none:
  "(\<And>c. c \<in> set (descendants n) \<Longrightarrow> \<not> p c) \<Longrightarrow> prune p n = n"
proof (induction n)
  case (Element i t a cs)
  have f: "filter (\<lambda>c. \<not> p c) cs = cs"
    using Element.prems by (intro filter_True) auto
  have "map (prune p) cs = map (\<lambda>c. c) cs"
  proof (intro map_cong refl)
    fix c assume c: "c \<in> set cs"
    show "prune p c = c"
      using c Element.prems by (intro Element.IH) auto
  qed
  with f show ?case by simp
qed simp_all


lemma decompose_all_prune:
  "decompose_all ids n = prune (\<lambda>c. ident c \<in> Some ` set ids) n"
proof (induction ids arbitrary: n)
  case Nil
  show ?case by (simp add: decompose_all_def prune_none)
next
  case (Cons e ids)
  have "decompose_all (e # ids) n = decompose_all ids (decompose e n)"
    by (simp add: decompose_all_def)
  also have "\<dots> = prune (\<lambda>c. ident c \<in> Some ` set ids) (prune (\<lambda>c. ident c = Some e) n)"
    by (simp add: Cons.IH decompose_prune)
  also have "\<dots> = prune (\<lambda>c. ident c = Some e \<or> ident c \<in> Some ` set ids) n"
    by (rule prune_prune) simp
  also have "\<dots> = prune (\<lambda>c. ident c \<in> Some ` set (e # ids)) n"
    by (intro prune_cong) auto
  finally show ?case .
qed




section \<open>What the sanitizer leaves\<close>

lemma label_decompose_all [simp]: "label (decompose_all ids n) = label n"
  by (simp add: decompose_all_prune)
















section \<open>Identities\<close>














section \<open>References that went stale\<close>










section \<open>The serialized tree\<close>





section \<open>Overlapping rules\<close>




end
